theory Spec2Isabelle
  imports Complex_Main "HOL-Library.AList"
begin

section \<open>Post-processing of question-answering predictions\<close>

text \<open>
  A shallow embedding of \<^verbatim>\<open>postprocess_qa_predictions\<close> (src/ADL_HW1/QA.py).
  Logits are modelled as real numbers: sums and comparisons are exact, and no value
  is NaN or infinite. A context string is a list of characters, one per code point.
  Every exception the Python can raise is a value of \<open>error\<close>.
\<close>

subsection \<open>Data\<close>

datatype error =
    PredictionsNotPair
  | ShapeMismatch nat nat
  | KeyError
  | IndexError
  | UnboundLocalError
  | EmptyReduction

record example =
  ex_id :: string
  relevant :: int

record feature =
  example_id :: string
  offset_mapping :: "int list option list"
  token_is_max_context :: "(nat \<times> bool) list option"

text \<open>
  The prediction dictionaries. A candidate starts with the keys \<open>offsets\<close>, \<open>score\<close>,
  \<open>start_logit\<close>, \<open>end_logit\<close>; then \<open>offsets\<close> is popped and \<open>text\<close> is set; then
  \<open>score\<close> is popped and \<open>probability\<close> is set. Each stage is a record of its own
  (\<open>text_score\<close> is the key \<open>score\<close> of the middle stage).
\<close>

record logits =
  start_logit :: real
  end_logit :: real

record prelim_prediction = logits +
  offsets :: "int \<times> int"
  score :: real

record text_logits = logits +
  "text" :: string

record text_prediction = text_logits +
  text_score :: real

record nbest_prediction = text_logits +
  probability :: real

text \<open>What one pass of the loop over the examples computes.\<close>

record example_result =
  ex_nbest :: "nbest_prediction list"
  ex_answer :: string
  ex_score_diff :: "real option"
  ex_null_score :: "real option"

text \<open>
  The local variables that live across the loop over the examples: the three ordered
  dictionaries (\<open>scores_diff_json\<close> exists only in null-answer mode) and \<open>null_score\<close>,
  which is unbound until an example with a feature assigns it.
\<close>

record loop_state =
  all_predictions :: "(string \<times> string) list"
  all_nbest_json :: "(string \<times> nbest_prediction list) list"
  scores_diff_json :: "(string \<times> real) list option"
  null_score :: "real option"

subsection \<open>Python sequences\<close>

definition index :: "'a list \<Rightarrow> nat \<Rightarrow> error + 'a" where
  "index xs i = (if i < length xs then Inr (xs ! i) else Inl IndexError)"

definition py_index :: "'a list \<Rightarrow> int \<Rightarrow> error + 'a" where
  "py_index xs i =
     (if 0 \<le> i \<and> i < int (length xs) then Inr (xs ! nat i)
      else if i < 0 \<and> - i \<le> int (length xs) then Inr (xs ! nat (int (length xs) + i))
      else Inl IndexError)"

definition py_bound :: "nat \<Rightarrow> int \<Rightarrow> nat" where
  "py_bound len i = (if i < 0 then nat (max 0 (int len + i)) else min len (nat i))"

definition py_slice :: "'a list \<Rightarrow> int \<Rightarrow> int \<Rightarrow> 'a list" where
  "py_slice xs a b =
     (let lo = py_bound (length xs) a; hi = py_bound (length xs) b
      in take (hi - lo) (drop lo xs))"

text \<open>\<^verbatim>\<open>xs[-1 : -n - 1 : -1]\<close>: the last \<open>n\<close> elements, last first.\<close>

definition last_reversed :: "int \<Rightarrow> 'a list \<Rightarrow> 'a list" where
  "last_reversed n xs =
     (if 0 \<le> n then take (nat n) (rev xs)
      else take (length xs - nat (- n)) (rev xs))"

text \<open>
  \<^verbatim>\<open>np.argsort\<close>: the indices in ascending order of value. NumPy's default sort does
  not fix the order of equal values; the model takes the stable order.
\<close>

definition argsort :: "real list \<Rightarrow> nat list" where
  "argsort xs = map snd (sort_key fst (zip xs [0..<length xs]))"

text \<open>A loop whose body may raise: the first error ends it.\<close>

fun for_each :: "('a \<Rightarrow> 's \<Rightarrow> error + 's) \<Rightarrow> 'a list \<Rightarrow> 's \<Rightarrow> error + 's" where
  "for_each body [] s = Inr s"
| "for_each body (x # xs) s =
     (case body x s of Inl e \<Rightarrow> Inl e | Inr s' \<Rightarrow> for_each body xs s')"

subsection \<open>The features of one example\<close>

definition update_min_null ::
  "prelim_prediction option \<Rightarrow> real \<Rightarrow> real \<Rightarrow> prelim_prediction option" where
  "update_min_null min_null_prediction s0 e0 =
     (let feature_null_score = s0 + e0;
          fresh = \<lparr>start_logit = s0, end_logit = e0, offsets = (0, 0),
                   score = feature_null_score\<rparr>
      in case min_null_prediction of
           None \<Rightarrow> Some fresh
         | Some p \<Rightarrow> if score p > feature_null_score then Some fresh else Some p)"

definition out_of_scope :: "int list option list \<Rightarrow> nat \<Rightarrow> bool" where
  "out_of_scope om i =
     (i \<ge> length om \<or> (case om ! i of None \<Rightarrow> True | Some sp \<Rightarrow> length sp < 2))"

definition not_max_context :: "(nat \<times> bool) list option \<Rightarrow> nat \<Rightarrow> bool" where
  "not_max_context tmc i =
     (case tmc of
        None \<Rightarrow> False
      | Some m \<Rightarrow> \<not> (case map_of m i of None \<Rightarrow> False | Some b \<Rightarrow> b))"

definition span_candidates ::
  "int \<Rightarrow> int \<Rightarrow> feature \<Rightarrow> real list \<Rightarrow> real list \<Rightarrow> prelim_prediction list" where
  "span_candidates n_best_size max_answer_length f start_logits end_logits =
     (let om = offset_mapping f;
          start_indexes = last_reversed n_best_size (argsort start_logits);
          end_indexes = last_reversed n_best_size (argsort end_logits)
      in [\<lparr>start_logit = start_logits ! start_index,
            end_logit = end_logits ! end_index,
            offsets = (the (om ! start_index) ! 0, the (om ! end_index) ! 1),
            score = start_logits ! start_index + end_logits ! end_index\<rparr>.
          start_index \<leftarrow> start_indexes, end_index \<leftarrow> end_indexes,
          \<not> (out_of_scope om start_index \<or> out_of_scope om end_index),
          \<not> (end_index < start_index
               \<or> int end_index - int start_index + 1 > max_answer_length),
          \<not> not_max_context (token_is_max_context f) start_index])"

definition feature_step ::
  "feature list \<Rightarrow> real list list \<Rightarrow> real list list \<Rightarrow> int \<Rightarrow> int \<Rightarrow> nat
   \<Rightarrow> prelim_prediction option \<times> prelim_prediction list
   \<Rightarrow> error + prelim_prediction option \<times> prelim_prediction list" where
  "feature_step features all_start_logits all_end_logits n_best_size max_answer_length
       feature_index acc =
     (case index all_start_logits feature_index of Inl e \<Rightarrow> Inl e | Inr start_logits \<Rightarrow>
     (case index all_end_logits feature_index of Inl e \<Rightarrow> Inl e | Inr end_logits \<Rightarrow>
     (case index features feature_index of Inl e \<Rightarrow> Inl e | Inr f \<Rightarrow>
     (case index start_logits 0 of Inl e \<Rightarrow> Inl e | Inr s0 \<Rightarrow>
     (case index end_logits 0 of Inl e \<Rightarrow> Inl e | Inr e0 \<Rightarrow>
        Inr (update_min_null (fst acc) s0 e0,
             snd acc @ span_candidates n_best_size max_answer_length f
                         start_logits end_logits))))))"

definition gather ::
  "feature list \<Rightarrow> real list list \<Rightarrow> real list list \<Rightarrow> int \<Rightarrow> int \<Rightarrow> nat list
   \<Rightarrow> error + prelim_prediction option \<times> prelim_prediction list" where
  "gather features all_start_logits all_end_logits n_best_size max_answer_length
       feature_indices =
     for_each (feature_step features all_start_logits all_end_logits n_best_size
                 max_answer_length) feature_indices (None, [])"

subsection \<open>Ranking, texts and the answer of one example\<close>

definition null_applies :: "bool \<Rightarrow> prelim_prediction option \<Rightarrow> bool" where
  "null_applies version_2_with_negative min_null_prediction =
     (version_2_with_negative \<and> min_null_prediction \<noteq> None)"

definition pool ::
  "bool \<Rightarrow> prelim_prediction option \<Rightarrow> prelim_prediction list \<Rightarrow> prelim_prediction list"
  where
  "pool version_2_with_negative min_null_prediction prelim_predictions =
     (case min_null_prediction of
        Some p \<Rightarrow> if version_2_with_negative then prelim_predictions @ [p]
                  else prelim_predictions
      | None \<Rightarrow> prelim_predictions)"

definition assign_null_score ::
  "bool \<Rightarrow> prelim_prediction option \<Rightarrow> real option \<Rightarrow> real option" where
  "assign_null_score version_2_with_negative min_null_prediction before =
     (case min_null_prediction of
        Some p \<Rightarrow> if version_2_with_negative then Some (score p) else before
      | None \<Rightarrow> before)"

definition truncated :: "int \<Rightarrow> prelim_prediction list \<Rightarrow> prelim_prediction list" where
  "truncated n_best_size ps = py_slice (sort_key (\<lambda>p. - score p) ps) 0 n_best_size"

definition null_forced :: "bool \<Rightarrow> prelim_prediction option \<Rightarrow> prelim_prediction list \<Rightarrow> bool"
  where
  "null_forced version_2_with_negative min_null_prediction predictions =
     (null_applies version_2_with_negative min_null_prediction
      \<and> \<not> list_ex (\<lambda>p. offsets p = (0, 0)) predictions)"

definition kept ::
  "bool \<Rightarrow> int \<Rightarrow> prelim_prediction option \<Rightarrow> prelim_prediction list
   \<Rightarrow> prelim_prediction list" where
  "kept version_2_with_negative n_best_size min_null_prediction prelim_predictions =
     (let predictions =
            truncated n_best_size
              (pool version_2_with_negative min_null_prediction prelim_predictions)
      in case min_null_prediction of
           Some p \<Rightarrow>
             if null_forced version_2_with_negative min_null_prediction predictions
             then predictions @ [p] else predictions
         | None \<Rightarrow> predictions)"

definition resolve_text :: "string \<Rightarrow> prelim_prediction \<Rightarrow> text_prediction" where
  "resolve_text context pred =
     \<lparr>start_logit = start_logit pred, end_logit = end_logit pred,
      text = py_slice context (fst (offsets pred)) (snd (offsets pred)),
      text_score = score pred\<rparr>"

definition placeholder :: text_prediction where
  "placeholder = \<lparr>start_logit = 0, end_logit = 0, text = ''empty'', text_score = 0\<rparr>"

definition degenerate :: "text_prediction list \<Rightarrow> bool" where
  "degenerate predictions =
     (length predictions = 0 \<or> (length predictions = 1 \<and> text (predictions ! 0) = ''''))"

definition guard :: "text_prediction list \<Rightarrow> text_prediction list" where
  "guard predictions = (if degenerate predictions then placeholder # predictions
                        else predictions)"

definition np_max :: "real list \<Rightarrow> error + real" where
  "np_max xs = (case xs of [] \<Rightarrow> Inl EmptyReduction | x # ys \<Rightarrow> Inr (fold max ys x))"

definition softmax :: "real list \<Rightarrow> error + real list" where
  "softmax scores =
     (case np_max scores of
        Inl e \<Rightarrow> Inl e
      | Inr m \<Rightarrow>
          let exp_scores = map (\<lambda>s. exp (s - m)) scores
          in Inr (map (\<lambda>x. x / sum_list exp_scores) exp_scores))"

definition with_probability :: "real \<times> text_prediction \<Rightarrow> nbest_prediction" where
  "with_probability pp =
     \<lparr>start_logit = start_logit (snd pp), end_logit = end_logit (snd pp),
      text = text (snd pp), probability = fst pp\<rparr>"

definition attach_probabilities :: "text_prediction list \<Rightarrow> error + nbest_prediction list"
  where
  "attach_probabilities predictions =
     (case softmax (map text_score predictions) of
        Inl e \<Rightarrow> Inl e
      | Inr probs \<Rightarrow> Inr (map with_probability (zip probs predictions)))"

text \<open>\<^verbatim>\<open>i = 0; while predictions[i]["text"] == "": i += 1\<close>, then \<^verbatim>\<open>predictions[i]\<close>.\<close>

fun first_non_empty :: "nbest_prediction list \<Rightarrow> error + nbest_prediction" where
  "first_non_empty [] = Inl IndexError"
| "first_non_empty (p # ps) = (if text p = '''' then first_non_empty ps else Inr p)"

definition choose_answer ::
  "bool \<Rightarrow> real \<Rightarrow> real option \<Rightarrow> nbest_prediction list \<Rightarrow> error + string \<times> real option"
  where
  "choose_answer version_2_with_negative null_score_diff_threshold null_score_now predictions =
     (if \<not> version_2_with_negative then
        (case index predictions 0 of
           Inl e \<Rightarrow> Inl e
         | Inr p \<Rightarrow> Inr (text p, None))
      else
        (case first_non_empty predictions of
           Inl e \<Rightarrow> Inl e
         | Inr best_non_null_pred \<Rightarrow>
             (case null_score_now of
                None \<Rightarrow> Inl UnboundLocalError
              | Some ns \<Rightarrow>
                  let score_diff =
                        ns - start_logit best_non_null_pred - end_logit best_non_null_pred
                  in Inr (if score_diff > null_score_diff_threshold then ''''
                          else text best_non_null_pred,
                          Some score_diff))))"

definition process_example ::
  "feature list \<Rightarrow> string list \<Rightarrow> real list list \<Rightarrow> real list list \<Rightarrow> bool \<Rightarrow> int \<Rightarrow> int
   \<Rightarrow> real \<Rightarrow> nat list \<Rightarrow> real option \<Rightarrow> example \<Rightarrow> error + example_result" where
  "process_example features context_list all_start_logits all_end_logits
       version_2_with_negative n_best_size max_answer_length null_score_diff_threshold
       feature_indices null_score_before ex =
     (case gather features all_start_logits all_end_logits n_best_size max_answer_length
             feature_indices of
        Inl e \<Rightarrow> Inl e
      | Inr (min_null_prediction, prelim_predictions) \<Rightarrow>
     (let null_score_now =
            assign_null_score version_2_with_negative min_null_prediction null_score_before;
          predictions =
            kept version_2_with_negative n_best_size min_null_prediction prelim_predictions
      in case py_index context_list (relevant ex) of
        Inl e \<Rightarrow> Inl e
      | Inr context \<Rightarrow>
     (case attach_probabilities (guard (map (resolve_text context) predictions)) of
        Inl e \<Rightarrow> Inl e
      | Inr nbest \<Rightarrow>
     (case choose_answer version_2_with_negative null_score_diff_threshold null_score_now
             nbest of
        Inl e \<Rightarrow> Inl e
      | Inr (answer, score_diff) \<Rightarrow>
          Inr \<lparr>ex_nbest = nbest, ex_answer = answer, ex_score_diff = score_diff,
               ex_null_score = null_score_now\<rparr>))))"

subsection \<open>The whole call\<close>

definition example_id_to_index :: "example list \<Rightarrow> string \<Rightarrow> nat option" where
  "example_id_to_index examples =
     map_of (rev (zip (map ex_id examples) [0..<length examples]))"

definition group_step ::
  "(string \<Rightarrow> nat option) \<Rightarrow> nat \<times> feature \<Rightarrow> (nat \<Rightarrow> nat list)
   \<Rightarrow> error + (nat \<Rightarrow> nat list)" where
  "group_step id_to_index entry features_per_example =
     (case id_to_index (example_id (snd entry)) of
        None \<Rightarrow> Inl KeyError
      | Some j \<Rightarrow>
          Inr (features_per_example(j := features_per_example j @ [fst entry])))"

definition record_result :: "string \<Rightarrow> example_result \<Rightarrow> loop_state \<Rightarrow> loop_state" where
  "record_result k r st =
     \<lparr>all_predictions = AList.update k (ex_answer r) (all_predictions st),
      all_nbest_json = AList.update k (ex_nbest r) (all_nbest_json st),
      scores_diff_json =
        (case scores_diff_json st of
           None \<Rightarrow> None
         | Some d \<Rightarrow> (case ex_score_diff r of
                        None \<Rightarrow> Some d
                      | Some v \<Rightarrow> Some (AList.update k v d))),
      null_score = ex_null_score r\<rparr>"

definition example_step ::
  "feature list \<Rightarrow> string list \<Rightarrow> real list list \<Rightarrow> real list list \<Rightarrow> bool \<Rightarrow> int \<Rightarrow> int
   \<Rightarrow> real \<Rightarrow> (nat \<Rightarrow> nat list) \<Rightarrow> nat \<times> example \<Rightarrow> loop_state \<Rightarrow> error + loop_state"
  where
  "example_step features context_list all_start_logits all_end_logits
       version_2_with_negative n_best_size max_answer_length null_score_diff_threshold
       features_per_example entry st =
     (case process_example features context_list all_start_logits all_end_logits
             version_2_with_negative n_best_size max_answer_length
             null_score_diff_threshold (features_per_example (fst entry)) (null_score st)
             (snd entry) of
        Inl e \<Rightarrow> Inl e
      | Inr r \<Rightarrow> Inr (record_result (ex_id (snd entry)) r st))"

definition initial_state :: "bool \<Rightarrow> loop_state" where
  "initial_state version_2_with_negative =
     \<lparr>all_predictions = [], all_nbest_json = [],
      scores_diff_json = (if version_2_with_negative then Some [] else None),
      null_score = None\<rparr>"

text \<open>
  The call up to its \<^verbatim>\<open>return\<close>: the final values of the local dictionaries.
  \<open>predictions\<close> is the sequence passed as the tuple of the two logit arrays.
\<close>

definition run ::
  "example list \<Rightarrow> feature list \<Rightarrow> string list \<Rightarrow> real list list list \<Rightarrow> bool \<Rightarrow> int
   \<Rightarrow> int \<Rightarrow> real \<Rightarrow> error + loop_state" where
  "run examples features context_list predictions version_2_with_negative n_best_size
       max_answer_length null_score_diff_threshold =
     (if length predictions \<noteq> 2 then Inl PredictionsNotPair
      else
        let all_start_logits = predictions ! 0; all_end_logits = predictions ! 1
        in if length all_start_logits \<noteq> length features
           then Inl (ShapeMismatch (length all_start_logits) (length features))
           else
             case for_each (group_step (example_id_to_index examples))
                    (zip [0..<length features] features) (\<lambda>_. []) of
               Inl e \<Rightarrow> Inl e
             | Inr features_per_example \<Rightarrow>
                 for_each
                   (example_step features context_list all_start_logits all_end_logits
                      version_2_with_negative n_best_size max_answer_length
                      null_score_diff_threshold features_per_example)
                   (zip [0..<length examples] examples)
                   (initial_state version_2_with_negative))"

text \<open>The function returns \<^verbatim>\<open>all_predictions\<close> and nothing else.\<close>

definition postprocess_qa_predictions ::
  "example list \<Rightarrow> feature list \<Rightarrow> string list \<Rightarrow> real list list list \<Rightarrow> bool \<Rightarrow> int
   \<Rightarrow> int \<Rightarrow> real \<Rightarrow> error + (string \<times> string) list" where
  "postprocess_qa_predictions examples features context_list predictions
       version_2_with_negative n_best_size max_answer_length null_score_diff_threshold =
     (case run examples features context_list predictions version_2_with_negative
             n_best_size max_answer_length null_score_diff_threshold of
        Inl e \<Rightarrow> Inl e
      | Inr st \<Rightarrow> Inr (all_predictions st))"

section \<open>Inputs of the scenarios\<close>

definition hello_feature :: feature where
  "hello_feature =
     \<lparr>example_id = ''q1'', offset_mapping = [None, Some [0, 5], Some [6, 11], None],
      token_is_max_context = None\<rparr>"

definition hello_example :: example where
  "hello_example = \<lparr>ex_id = ''q1'', relevant = 0\<rparr>"

definition span_feature :: feature where
  "span_feature = \<lparr>example_id = ''q'', offset_mapping = [None, Some [0, 5]],
                    token_is_max_context = None\<rparr>"

definition q_example :: example where
  "q_example = \<lparr>ex_id = ''q'', relevant = 0\<rparr>"

definition zero_width_feature :: feature where
  "zero_width_feature = \<lparr>example_id = ''q'', offset_mapping = [None, Some [2, 2]],
                          token_is_max_context = None\<rparr>"

definition no_context_feature :: feature where
  "no_context_feature = \<lparr>example_id = ''q'', offset_mapping = [None],
                          token_is_max_context = None\<rparr>"

definition origin_feature :: feature where
  "origin_feature = \<lparr>example_id = ''q'', offset_mapping = [None, Some [0, 0]],
                      token_is_max_context = None\<rparr>"

definition a_example :: example where
  "a_example = \<lparr>ex_id = ''a'', relevant = 0\<rparr>"

definition b_example :: example where
  "b_example = \<lparr>ex_id = ''b'', relevant = 0\<rparr>"

definition a_feature :: feature where
  "a_feature = \<lparr>example_id = ''a'', offset_mapping = [None, Some [0, 3]],
                 token_is_max_context = None\<rparr>"

section \<open>Evaluation and general lemmas\<close>

lemmas sequence_defs = index_def py_index_def py_slice_def py_bound_def last_reversed_def
  argsort_def

lemmas feature_defs = update_min_null_def out_of_scope_def not_max_context_def
  span_candidates_def feature_step_def gather_def

lemmas ranking_defs = null_applies_def pool_def assign_null_score_def truncated_def
  null_forced_def kept_def resolve_text_def placeholder_def degenerate_def guard_def
  np_max_def softmax_def with_probability_def attach_probabilities_def choose_answer_def
  process_example_def

lemmas call_defs = example_id_to_index_def group_step_def record_result_def
  example_step_def initial_state_def run_def postprocess_qa_predictions_def

lemmas eval_defs = sequence_defs feature_defs ranking_defs call_defs Let_def

lemmas scenario_defs = hello_feature_def hello_example_def span_feature_def q_example_def
  zero_width_feature_def no_context_feature_def origin_feature_def a_example_def
  b_example_def a_feature_def

lemma for_each_error:
  "for_each body xs s = Inl e \<Longrightarrow> \<exists>x s'. x \<in> set xs \<and> body x s' = Inl e"
proof (induction xs arbitrary: s)
  case Nil
  then show ?case by simp
next
  case (Cons x xs)
  show ?case
  proof (cases "body x s")
    case (Inl e')
    with Cons.prems show ?thesis by auto
  next
    case (Inr s')
    with Cons.prems have "for_each body xs s' = Inl e" by simp
    from Cons.IH [OF this] show ?thesis by auto
  qed
qed

lemma for_each_invariant:
  assumes "for_each body xs s = Inr s'"
    and "P s"
    and "\<And>x u u'. x \<in> set xs \<Longrightarrow> P u \<Longrightarrow> body x u = Inr u' \<Longrightarrow> P u'"
  shows "P s'"
  using assms
proof (induction xs arbitrary: s)
  case Nil
  then show ?case by simp
next
  case (Cons x xs)
  from Cons.prems(1) obtain u where u: "body x s = Inr u" and rest: "for_each body xs u = Inr s'"
    by (cases "body x s") auto
  have "P u" using Cons.prems(3) [of x s u] Cons.prems(2) u by simp
  with Cons.IH [OF rest] Cons.prems(3) show ?case by auto
qed

subsection \<open>Which errors each stage can raise\<close>

lemma group_step_error: "group_step m entry acc = Inl e \<Longrightarrow> e = KeyError"
  by (auto simp: group_step_def split: option.splits)

lemma feature_step_error:
  "feature_step fs sl el n m i acc = Inl e \<Longrightarrow> e = IndexError"
  by (auto simp: feature_step_def index_def split: sum.splits if_splits)

lemma gather_error: "gather fs sl el n m fi = Inl e \<Longrightarrow> e = IndexError"
  unfolding gather_def by (blast dest: for_each_error feature_step_error)

lemma first_non_empty_error: "first_non_empty ps = Inl e \<Longrightarrow> e = IndexError"
  by (induction ps) (auto split: if_splits)

lemma choose_answer_error:
  "choose_answer v t ns ps = Inl e \<Longrightarrow> e = IndexError \<or> e = UnboundLocalError"
  by (auto simp: choose_answer_def index_def Let_def
      split: if_splits sum.splits option.splits dest: first_non_empty_error)

lemma attach_probabilities_error:
  "attach_probabilities ps = Inl e \<Longrightarrow> e = EmptyReduction"
  by (auto simp: attach_probabilities_def softmax_def np_max_def Let_def
      split: sum.splits list.splits)

lemma process_example_error:
  "process_example fs cl sl el v n m t fi ns ex = Inl e
   \<Longrightarrow> e = IndexError \<or> e = UnboundLocalError \<or> e = EmptyReduction"
  by (auto simp: process_example_def py_index_def Let_def
      split: sum.splits prod.splits if_splits
      dest: gather_error choose_answer_error attach_probabilities_error)

lemma example_step_error:
  "example_step fs cl sl el v n m t fpe entry st = Inl e
   \<Longrightarrow> e = IndexError \<or> e = UnboundLocalError \<or> e = EmptyReduction"
  by (auto simp: example_step_def split: sum.splits dest: process_example_error)

lemma run_error:
  assumes "run exs fs cl [sl, el] v n m t = Inl e" and "length sl = length fs"
  shows "e = KeyError \<or> e = IndexError \<or> e = UnboundLocalError \<or> e = EmptyReduction"
proof (cases "for_each (group_step (example_id_to_index exs)) (zip [0..<length fs] fs) (\<lambda>_. [])")
  case (Inl e')
  with assms have "e = e'" by (simp add: run_def)
  with Inl show ?thesis by (blast dest: for_each_error group_step_error)
next
  case (Inr fpe)
  with assms have "for_each (example_step fs cl sl el v n m t fpe)
      (zip [0..<length exs] exs) (initial_state v) = Inl e"
    by (simp add: run_def)
  then show ?thesis by (blast dest: for_each_error example_step_error)
qed

section \<open>The checks on the arguments\<close>

text \<open>
  C9. When \<open>predictions\<close> does not have exactly two elements, the call raises the
  error of the pair check, whatever the other arguments are (so before the comparison
  with the number of features and before any other processing); when it has two
  elements, that error is not raised.
\<close>

theorem predictions_pair_check:
  "(length predictions \<noteq> 2 \<longrightarrow>
      postprocess_qa_predictions exs fs cl predictions v n m t = Inl PredictionsNotPair)
   \<and> (length predictions = 2 \<longrightarrow>
      postprocess_qa_predictions exs fs cl predictions v n m t \<noteq> Inl PredictionsNotPair)"
proof (intro conjI impI)
  assume "length predictions \<noteq> 2"
  then show "postprocess_qa_predictions exs fs cl predictions v n m t = Inl PredictionsNotPair"
    by (simp add: postprocess_qa_predictions_def run_def)
next
  assume two: "length predictions = 2"
  then obtain sl el where p: "predictions = [sl, el]"
    by (cases predictions; cases "tl predictions") auto
  show "postprocess_qa_predictions exs fs cl predictions v n m t \<noteq> Inl PredictionsNotPair"
  proof
    assume "postprocess_qa_predictions exs fs cl predictions v n m t = Inl PredictionsNotPair"
    then have r: "run exs fs cl [sl, el] v n m t = Inl PredictionsNotPair"
      by (simp add: postprocess_qa_predictions_def p split: sum.splits)
    show False
    proof (cases "length sl = length fs")
      case True
      from run_error [OF r True] show False by simp
    next
      case False
      with r show False by (simp add: run_def)
    qed
  qed
qed

theorem predictions_pair_check_witness:
  "postprocess_qa_predictions [] [] [] [[], [], []] False 20 30 0 = Inl PredictionsNotPair
   \<and> postprocess_qa_predictions [] [] [] [[[1]], [[1]]] False 20 30 0 = Inl (ShapeMismatch 1 0)"
proof -
  have a: "postprocess_qa_predictions [] [] [] [[], [], []] False 20 30 0 = Inl PredictionsNotPair"
    using predictions_pair_check [of "[[], [], []]" "[]" "[]" "[]" False 20 30 0] by simp
  have "postprocess_qa_predictions [] [] [] [[[1]], [[1]]] False 20 30 0 \<noteq> Inl PredictionsNotPair"
    using predictions_pair_check [of "[[[1]], [[1]]]" "[]" "[]" "[]" False 20 30 0] by simp
  moreover have "postprocess_qa_predictions [] [] [] [[[1]], [[1]]] False 20 30 0
      = Inl (ShapeMismatch 1 0)"
    by (simp add: postprocess_qa_predictions_def run_def)
  ultimately show ?thesis using a by simp
qed

text \<open>
  C2 as stated fails for the end logits: only the number of start-logit vectors is
  compared with the number of features. With one feature, one start-logit vector and
  no end-logit vector, the check passes and the work on the example raises
  \<^verbatim>\<open>IndexError\<close>; with three end-logit vectors the call returns an answer.
\<close>

theorem shape_mismatch_check_counterexample:
  "postprocess_qa_predictions [q_example] [span_feature] [''hello''] [[[5, 1]], []]
     False 20 30 0 = Inl IndexError
   \<and> postprocess_qa_predictions [q_example] [span_feature] [''hello'']
       [[[5, 1]], [[5, 2], [0, 0], [0, 0]]] False 20 30 0 = Inr [(''q'', ''hello'')]"
  by (simp add: scenario_defs eval_defs)

text \<open>
  C2, amended. When the number of start-logit vectors differs from the number of
  features, the call raises the shape-mismatch error, whatever the examples, contexts
  and logits are (so before any work on an example), and no dictionary is produced;
  when it equals the number of features, that error is not raised.
\<close>

theorem shape_mismatch_check:
  "(length all_start_logits \<noteq> length fs \<longrightarrow>
      run exs fs cl [all_start_logits, all_end_logits] v n m t
        = Inl (ShapeMismatch (length all_start_logits) (length fs))
      \<and> postprocess_qa_predictions exs fs cl [all_start_logits, all_end_logits] v n m t
        = Inl (ShapeMismatch (length all_start_logits) (length fs)))
   \<and> (length all_start_logits = length fs \<longrightarrow>
      postprocess_qa_predictions exs fs cl [all_start_logits, all_end_logits] v n m t
        \<noteq> Inl (ShapeMismatch a b))"
proof (intro conjI impI)
  assume "length all_start_logits \<noteq> length fs"
  then show "run exs fs cl [all_start_logits, all_end_logits] v n m t
        = Inl (ShapeMismatch (length all_start_logits) (length fs))"
    and "postprocess_qa_predictions exs fs cl [all_start_logits, all_end_logits] v n m t
        = Inl (ShapeMismatch (length all_start_logits) (length fs))"
    by (simp_all add: postprocess_qa_predictions_def run_def)
next
  assume eq: "length all_start_logits = length fs"
  show "postprocess_qa_predictions exs fs cl [all_start_logits, all_end_logits] v n m t
        \<noteq> Inl (ShapeMismatch a b)"
  proof
    assume "postprocess_qa_predictions exs fs cl [all_start_logits, all_end_logits] v n m t
        = Inl (ShapeMismatch a b)"
    then have "run exs fs cl [all_start_logits, all_end_logits] v n m t
        = Inl (ShapeMismatch a b)"
      by (simp add: postprocess_qa_predictions_def split: sum.splits)
    from run_error [OF this eq] show False by simp
  qed
qed

theorem shape_mismatch_check_witness:
  "postprocess_qa_predictions [] [] [] [[[1], [2]], [[1], [2]]] True 20 30 0
     = Inl (ShapeMismatch 2 0)
   \<and> postprocess_qa_predictions [] [] [] [[], []] True 20 30 0 = Inr []"
proof -
  have a: "postprocess_qa_predictions [] [] [] [[[1], [2]], [[1], [2]]] True 20 30 0
     = Inl (ShapeMismatch 2 0)"
    using shape_mismatch_check [of "[[1], [2]]" "[]" "[]" "[]" "[[1], [2]]" True 20 30 0]
    by simp
  have "postprocess_qa_predictions [] [] [] [[], []] True 20 30 0 \<noteq> Inl (ShapeMismatch 0 0)"
    using shape_mismatch_check [of "[]" "[]" "[]" "[]" "[]" True 20 30 0 0 0] by simp
  moreover have "postprocess_qa_predictions [] [] [] [[], []] True 20 30 0 = Inr []"
    by (simp add: postprocess_qa_predictions_def run_def initial_state_def)
  ultimately show ?thesis using a by simp
qed

section \<open>The scenario with a maximal answer length of one token\<close>

text \<open>
  C4 as stated fails: with \<open>max_answer_length = 1\<close> the answer is not \<open>hello\<close>.
\<close>

theorem hello_scenario_counterexample:
  "postprocess_qa_predictions [hello_example] [hello_feature] [''hello world'']
     [[[0, 5, 1, 0]], [[0, 1, 6, 0]]] False 20 1 0 \<noteq> Inr [(''q1'', ''hello'')]"
  by (simp add: hello_feature_def hello_example_def eval_defs)

text \<open>
  C4, amended. For the single feature with offset mapping \<open>[None, (0,5), (6,11), None]\<close>
  over \<open>hello world\<close>, start logits \<open>[0,5,1,0]\<close>, end logits \<open>[0,1,6,0]\<close>, null-answer
  mode off and \<open>max_answer_length = 1\<close> (and \<open>n_best_size = 20\<close>): the span of tokens 1 to 2
  is excluded, the candidates are the span (1,1) with score 6 and the span (2,2) with
  score 7, the latter ranks first, and the final answer is \<open>world\<close>.
\<close>

theorem hello_scenario:
  "gather [hello_feature] [[0, 5, 1, 0]] [[0, 1, 6, 0]] 20 1 [0]
     = Inr (Some \<lparr>start_logit = 0, end_logit = 0, offsets = (0, 0), score = 0\<rparr>,
            [\<lparr>start_logit = 5, end_logit = 1, offsets = (0, 5), score = 6\<rparr>,
             \<lparr>start_logit = 1, end_logit = 6, offsets = (6, 11), score = 7\<rparr>])
   \<and> postprocess_qa_predictions [hello_example] [hello_feature] [''hello world'']
       [[[0, 5, 1, 0]], [[0, 1, 6, 0]]] False 20 1 t = Inr [(''q1'', ''world'')]"
  by (simp add: hello_feature_def hello_example_def eval_defs)

section \<open>One example\<close>

subsection \<open>Stages\<close>

lemma set_py_slice: "set (py_slice xs a b) \<subseteq> set xs"
  unfolding py_slice_def Let_def
  by (meson set_take_subset set_drop_subset subset_trans)

lemma length_py_slice_0: "0 \<le> n \<Longrightarrow> length (py_slice xs 0 n) \<le> nat n"
  by (simp add: py_slice_def py_bound_def)

lemma length_truncated: "0 \<le> n \<Longrightarrow> length (truncated n ps) \<le> nat n"
  unfolding truncated_def by (rule length_py_slice_0)

lemma set_truncated: "set (truncated n ps) \<subseteq> set ps"
  unfolding truncated_def using set_py_slice [of "sort_key (\<lambda>p. - score p) ps" 0 n] by simp

lemma length_guard:
  "length (guard ps) = length ps + (if degenerate ps then 1 else 0)"
  by (simp add: guard_def)

lemma guard_not_Nil: "guard ps \<noteq> []"
  by (auto simp: guard_def degenerate_def)

lemma softmax_length: "softmax xs = Inr ys \<Longrightarrow> length ys = length xs"
  by (auto simp: softmax_def Let_def split: sum.splits)

lemma attach_probabilities_shape:
  assumes "attach_probabilities ps = Inr nb"
  shows "length nb = length ps" and "map text nb = map text ps"
    and "map start_logit nb = map start_logit ps" and "map end_logit nb = map end_logit ps"
proof -
  from assms obtain probs where s: "softmax (map text_score ps) = Inr probs"
    and nb: "nb = map with_probability (zip probs ps)"
    by (auto simp: attach_probabilities_def split: sum.splits)
  from softmax_length [OF s] have l: "length probs = length ps" by simp
  show "length nb = length ps" using l by (simp add: nb)
  have z: "map snd (zip probs ps) = ps" using l by simp
  have "map text nb = map (\<lambda>pp. text (snd pp)) (zip probs ps)"
    by (simp add: nb with_probability_def)
  also have "\<dots> = map text (map snd (zip probs ps))" by (simp add: comp_def)
  finally show "map text nb = map text ps" by (simp only: z)
  have "map start_logit nb = map (\<lambda>pp. start_logit (snd pp)) (zip probs ps)"
    by (simp add: nb with_probability_def)
  also have "\<dots> = map start_logit (map snd (zip probs ps))" by (simp add: comp_def)
  finally show "map start_logit nb = map start_logit ps" by (simp only: z)
  have "map end_logit nb = map (\<lambda>pp. end_logit (snd pp)) (zip probs ps)"
    by (simp add: nb with_probability_def)
  also have "\<dots> = map end_logit (map snd (zip probs ps))" by (simp add: comp_def)
  finally show "map end_logit nb = map end_logit ps" by (simp only: z)
qed

lemma process_example_stages:
  assumes "process_example fs cl sl el v n m t fi ns ex = Inr r"
  obtains mn prelim ctx where
    "gather fs sl el n m fi = Inr (mn, prelim)"
    "py_index cl (relevant ex) = Inr ctx"
    "attach_probabilities (guard (map (resolve_text ctx) (kept v n mn prelim)))
       = Inr (ex_nbest r)"
    "choose_answer v t (assign_null_score v mn ns) (ex_nbest r)
       = Inr (ex_answer r, ex_score_diff r)"
    "ex_null_score r = assign_null_score v mn ns"
  using assms
  by (auto simp: process_example_def Let_def split: sum.splits prod.splits)

lemma first_non_empty_index:
  "first_non_empty ps = Inr best \<Longrightarrow>
     \<exists>i<length ps. best = ps ! i \<and> text (ps ! i) \<noteq> '''' \<and> (\<forall>j<i. text (ps ! j) = '''')"
proof (induction ps)
  case Nil
  then show ?case by simp
next
  case (Cons p ps)
  show ?case
  proof (cases "text p = ''''")
    case True
    with Cons.prems have "first_non_empty ps = Inr best" by simp
    from Cons.IH [OF this] obtain i where i: "i < length ps" "best = ps ! i"
      "text (ps ! i) \<noteq> ''''" "\<forall>j<i. text (ps ! j) = ''''" by blast
    have "\<forall>j<Suc i. text ((p # ps) ! j) = ''''"
      using True i(4) by (auto simp: nth_Cons split: nat.splits)
    with i show ?thesis by (intro exI [of _ "Suc i"]) simp
  next
    case False
    with Cons.prems have "best = p" by simp
    with False show ?thesis by (intro exI [of _ 0]) simp
  qed
qed

lemma first_non_empty_fails:
  "first_non_empty ps = Inl e \<longleftrightarrow> e = IndexError \<and> (\<forall>p\<in>set ps. text p = '''')"
  by (induction ps) auto

lemma feature_step_min_null:
  assumes "feature_step fs sl el n m i (mn0, pre0) = Inr (mn, pre)"
  shows "mn = update_min_null mn0 ((sl ! i) ! 0) ((el ! i) ! 0)"
  using assms by (auto simp: feature_step_def index_def split: sum.splits if_splits)

lemma update_min_null_score:
  assumes "case mn0 of None \<Rightarrow> True | Some p0 \<Rightarrow> offsets p0 = (0, 0)"
  shows "\<exists>p. update_min_null mn0 s0 e0 = Some p \<and> offsets p = (0, 0)
     \<and> score p = (case mn0 of None \<Rightarrow> s0 + e0 | Some p0 \<Rightarrow> min (score p0) (s0 + e0))"
  using assms by (auto simp: update_min_null_def Let_def min_def split: option.splits)

lemma for_each_min_null:
  assumes "for_each (feature_step fs sl el n m) fi (mn0, pre0) = Inr (mn, pre)"
    and "case mn0 of None \<Rightarrow> fi \<noteq> [] | Some p0 \<Rightarrow> offsets p0 = (0, 0)"
  shows "\<exists>p. mn = Some p \<and> offsets p = (0, 0)
     \<and> score p = Min ((case mn0 of None \<Rightarrow> {} | Some p0 \<Rightarrow> {score p0})
                        \<union> (\<lambda>i. (sl ! i) ! 0 + (el ! i) ! 0) ` set fi)"
  using assms
proof (induction fi arbitrary: mn0 pre0)
  case Nil
  then show ?case by (auto split: option.splits)
next
  case (Cons i fi)
  from Cons.prems(1) obtain mn1 pre1 where
    step: "feature_step fs sl el n m i (mn0, pre0) = Inr (mn1, pre1)"
    and rest: "for_each (feature_step fs sl el n m) fi (mn1, pre1) = Inr (mn, pre)"
    by (cases "feature_step fs sl el n m i (mn0, pre0)") auto
  let ?s = "(sl ! i) ! 0 + (el ! i) ! 0"
  have ok0: "case mn0 of None \<Rightarrow> True | Some p0 \<Rightarrow> offsets p0 = (0, 0)"
    using Cons.prems(2) by (auto split: option.splits)
  from update_min_null_score [OF ok0, of "(sl ! i) ! 0" "(el ! i) ! 0"]
    feature_step_min_null [OF step]
  obtain p1 where p1: "mn1 = Some p1" "offsets p1 = (0, 0)"
    "score p1 = (case mn0 of None \<Rightarrow> ?s | Some p0 \<Rightarrow> min (score p0) ?s)"
    by auto
  have "case mn1 of None \<Rightarrow> fi \<noteq> [] | Some p0 \<Rightarrow> offsets p0 = (0, 0)"
    using p1 by simp
  from Cons.IH [OF rest this] obtain p where p: "mn = Some p" "offsets p = (0, 0)"
    "score p = Min ({score p1} \<union> (\<lambda>i. (sl ! i) ! 0 + (el ! i) ! 0) ` set fi)"
    using p1 by auto
  let ?T = "(\<lambda>i. (sl ! i) ! 0 + (el ! i) ! 0) ` set fi"
  have fin: "finite ?T" by simp
  have "Min ({score p1} \<union> ?T)
      = Min ((case mn0 of None \<Rightarrow> {} | Some p0 \<Rightarrow> {score p0}) \<union> (insert ?s ?T))"
  proof (cases mn0)
    case None
    then show ?thesis using p1 by simp
  next
    case (Some p0)
    then have sc: "score p1 = min (score p0) ?s" using p1 by simp
    show ?thesis
    proof (cases "?T = {}")
      case True
      then show ?thesis using Some sc by (simp add: min.commute)
    next
      case False
      then show ?thesis using Some sc fin by (simp add: min.assoc)
    qed
  qed
  with p show ?case by simp
qed

lemma gather_min_null:
  assumes "gather fs sl el n m fi = Inr (mn, prelim)" and "fi \<noteq> []"
  shows "\<exists>p. mn = Some p \<and> offsets p = (0, 0)
     \<and> score p = Min ((\<lambda>i. (sl ! i) ! 0 + (el ! i) ! 0) ` set fi)"
  using for_each_min_null [of fs sl el n m fi None "[]" mn prelim] assms
  by (simp add: gather_def)

lemma gather_Nil: "gather fs sl el n m [] = Inr (None, [])"
  by (simp add: gather_def)

lemma length_kept:
  "length (kept v n mn prelim) =
     length (truncated n (pool v mn prelim))
       + (if null_forced v mn (truncated n (pool v mn prelim)) then 1 else 0)"
  by (auto simp: kept_def Let_def null_forced_def null_applies_def split: option.splits)

lemma kept_Nil: "kept False n mn [] = []"
  by (auto simp: kept_def pool_def truncated_def py_slice_def null_forced_def null_applies_def
      Let_def split: option.splits)

lemma attach_placeholder:
  "attach_probabilities [placeholder]
     = Inr [\<lparr>start_logit = 0, end_logit = 0, text = ''empty'', probability = 1\<rparr>]"
  by (simp add: attach_probabilities_def softmax_def np_max_def with_probability_def
      placeholder_def)

lemma span_run:
  "process_example [span_feature] [''hello''] [[5, 1]] [[5, 2]] True 20 30 0 [0] None q_example
     = Inr \<lparr>ex_nbest =
              [\<lparr>start_logit = 5, end_logit = 5, text = '''',
                probability = 1 / (1 + exp (- 7))\<rparr>,
               \<lparr>start_logit = 1, end_logit = 2, text = ''hello'',
                probability = exp (- 7) / (1 + exp (- 7))\<rparr>],
            ex_answer = '''', ex_score_diff = Some 7, ex_null_score = Some 10\<rparr>"
  by (simp add: span_feature_def q_example_def eval_defs)

lemma truncated_not_Nil: "1 \<le> n \<Longrightarrow> ps \<noteq> [] \<Longrightarrow> truncated n ps \<noteq> []"
proof -
  assume n: "1 \<le> n" and ps: "ps \<noteq> []"
  have "length (sort_key (\<lambda>p. - score p) ps) = length ps" by simp
  with ps have "0 < length (sort_key (\<lambda>p. - score p) ps)" by simp
  with n have "0 < length (truncated n ps)"
    by (simp add: truncated_def py_slice_def py_bound_def)
  then show ?thesis by auto
qed

lemma forced_not_degenerate:
  assumes "1 \<le> n" and "null_forced v mn (truncated n (pool v mn prelim))"
  shows "\<not> degenerate (map (resolve_text ctx) (kept v n mn prelim))"
proof -
  from assms(2) obtain p where p: "mn = Some p" and v: v
    by (auto simp: null_forced_def null_applies_def)
  then have "pool v mn prelim \<noteq> []" by (simp add: pool_def)
  from truncated_not_Nil [OF assms(1) this]
  have "1 \<le> length (truncated n (pool v mn prelim))"
    by (cases "truncated n (pool v mn prelim)") auto
  with assms(2) have "2 \<le> length (kept v n mn prelim)" by (simp add: length_kept)
  then show ?thesis by (auto simp: degenerate_def)
qed

lemma record_result_nbest:
  "map_of (all_nbest_json (record_result k r st)) k = Some (ex_nbest r)"
  by (simp add: record_result_def update_conv')


lemma q_context: "py_index [c] (relevant q_example) = Inr c"
  by (simp add: q_example_def py_index_def)

lemma forced_gather:
  "gather [span_feature] [[0, 5]] [[0, 5]] 1 30 [0]
     = Inr (Some \<lparr>start_logit = 0, end_logit = 0, offsets = (0, 0), score = 0\<rparr>,
            [\<lparr>start_logit = 5, end_logit = 5, offsets = (0, 5), score = 10\<rparr>])"
  by (simp add: span_feature_def eval_defs)

lemma forced_run:
  "process_example [span_feature] [''hello''] [[0, 5]] [[0, 5]] True 1 30 0 [0] None q_example
     = Inr \<lparr>ex_nbest =
              [\<lparr>start_logit = 5, end_logit = 5, text = ''hello'',
                probability = 1 / (1 + exp (- 10))\<rparr>,
               \<lparr>start_logit = 0, end_logit = 0, text = '''',
                probability = exp (- 10) / (1 + exp (- 10))\<rparr>],
            ex_answer = ''hello'', ex_score_diff = Some (- 10), ex_null_score = Some 0\<rparr>"
  by (simp add: scenario_defs eval_defs)

lemma zero_width_run:
  "process_example [zero_width_feature] [''abc''] [[0, 1]] [[0, 1]] False 1 30 0 [0] None
       q_example
     = Inr \<lparr>ex_nbest =
              [\<lparr>start_logit = 0, end_logit = 0, text = ''empty'',
                probability = exp (- 2) / (exp (- 2) + 1)\<rparr>,
               \<lparr>start_logit = 1, end_logit = 1, text = '''',
                probability = 1 / (exp (- 2) + 1)\<rparr>],
            ex_answer = ''empty'', ex_score_diff = None, ex_null_score = None\<rparr>"
  by (simp add: scenario_defs eval_defs)





subsection \<open>The null candidate\<close>

text \<open>
  C6 does not hold of the code. The comment in the source says that the minimum null
  prediction is added back if it was removed because of its low score, but the code
  tests for any kept candidate with offsets \<open>(0,0)\<close>. When a span candidate itself
  has these offsets (a token of zero width at the start of the context) and
  \<open>n_best_size = 1\<close>, that span outranks the tracked null candidate, the cut drops
  the null candidate, the test finds the span, and the null candidate is not added
  back.
\<close>

theorem null_candidate_not_restored:
  "gather [origin_feature] [[0, 5]] [[0, 5]] 1 30 [0]
     = Inr (Some \<lparr>start_logit = 0, end_logit = 0, offsets = (0, 0), score = 0\<rparr>,
            [\<lparr>start_logit = 5, end_logit = 5, offsets = (0, 0), score = 10\<rparr>])
   \<and> \<lparr>start_logit = 0, end_logit = 0, offsets = (0, 0), score = 0\<rparr>
       \<in> set (pool True
                 (Some \<lparr>start_logit = 0, end_logit = 0, offsets = (0, 0), score = 0\<rparr>)
                 [\<lparr>start_logit = 5, end_logit = 5, offsets = (0, 0), score = 10\<rparr>])
   \<and> kept True 1 (Some \<lparr>start_logit = 0, end_logit = 0, offsets = (0, 0), score = 0\<rparr>)
         [\<lparr>start_logit = 5, end_logit = 5, offsets = (0, 0), score = 10\<rparr>]
       = [\<lparr>start_logit = 5, end_logit = 5, offsets = (0, 0), score = 10\<rparr>]
   \<and> \<lparr>start_logit = 0, end_logit = 0, offsets = (0, 0), score = 0\<rparr>
       \<notin> set (kept True 1
                 (Some \<lparr>start_logit = 0, end_logit = 0, offsets = (0, 0), score = 0\<rparr>)
                 [\<lparr>start_logit = 5, end_logit = 5, offsets = (0, 0), score = 10\<rparr>])"
  by (simp add: scenario_defs eval_defs)

text \<open>
  What the code does ensure in null-answer mode, for an example with at least one
  feature: the tracked null candidate has offsets \<open>(0,0)\<close> and the least score
  \<open>start_logits[0] + end_logits[0]\<close> over the features, the kept list always has some
  candidate with offsets \<open>(0,0)\<close>, and the tracked null candidate itself is kept
  whenever no span candidate has these offsets.
\<close>

lemma null_candidate_kept:
  assumes "gather fs sl el n m fi = Inr (mn, prelim)" and "fi \<noteq> []"
  shows "\<exists>p. mn = Some p \<and> offsets p = (0, 0)
     \<and> score p = Min ((\<lambda>i. (sl ! i) ! 0 + (el ! i) ! 0) ` set fi)
     \<and> p \<in> set (pool True mn prelim)
     \<and> kept True n mn prelim =
         (if \<exists>q\<in>set (truncated n (pool True mn prelim)). offsets q = (0, 0)
          then truncated n (pool True mn prelim)
          else truncated n (pool True mn prelim) @ [p])
     \<and> (\<exists>q\<in>set (kept True n mn prelim). offsets q = (0, 0))
     \<and> ((\<forall>q\<in>set prelim. offsets q \<noteq> (0, 0)) \<longrightarrow> p \<in> set (kept True n mn prelim))"
proof -
  from gather_min_null [OF assms] obtain p where p: "mn = Some p" "offsets p = (0, 0)"
    "score p = Min ((\<lambda>i. (sl ! i) ! 0 + (el ! i) ! 0) ` set fi)" by blast
  have pool: "p \<in> set (pool True mn prelim)" by (simp add: pool_def p)
  have k: "kept True n mn prelim =
         (if \<exists>q\<in>set (truncated n (pool True mn prelim)). offsets q = (0, 0)
          then truncated n (pool True mn prelim)
          else truncated n (pool True mn prelim) @ [p])"
    by (simp add: kept_def null_forced_def null_applies_def p list_ex_iff Let_def)
  have e: "\<exists>q\<in>set (kept True n mn prelim). offsets q = (0, 0)"
    unfolding k using p(2) by auto
  have "p \<in> set (kept True n mn prelim)" if none: "\<forall>q\<in>set prelim. offsets q \<noteq> (0, 0)"
  proof (cases "\<exists>q\<in>set (truncated n (pool True mn prelim)). offsets q = (0, 0)")
    case True
    then obtain q where q: "q \<in> set (truncated n (pool True mn prelim))" "offsets q = (0, 0)"
      by blast
    from q(1) set_truncated [of n "pool True mn prelim"]
    have "q \<in> set prelim \<or> q = p" by (auto simp: pool_def p)
    with none q(2) have "q = p" by auto
    with q(1) True show ?thesis by (simp add: k)
  next
    case False
    then show ?thesis by (simp add: k)
  qed
  with p pool k e show ?thesis by blast
qed

lemma null_candidate_restored_instance:
  "kept True 1 (Some \<lparr>start_logit = 0, end_logit = 0, offsets = (0, 0), score = 0\<rparr>)
        [\<lparr>start_logit = 5, end_logit = 5, offsets = (0, 5), score = 10\<rparr>]
     = [\<lparr>start_logit = 5, end_logit = 5, offsets = (0, 5), score = 10\<rparr>,
        \<lparr>start_logit = 0, end_logit = 0, offsets = (0, 0), score = 0\<rparr>]"
proof -
  have ne: "[0::nat] \<noteq> []" by simp
  from null_candidate_kept [OF forced_gather ne] obtain p where
    p: "Some \<lparr>start_logit = 0, end_logit = 0, offsets = (0, 0), score = 0\<rparr> = Some p"
    and k: "kept True 1 (Some \<lparr>start_logit = 0, end_logit = 0, offsets = (0, 0), score = 0\<rparr>)
        [\<lparr>start_logit = 5, end_logit = 5, offsets = (0, 5), score = 10\<rparr>]
      = (if \<exists>q\<in>set (truncated 1 (pool True
              (Some \<lparr>start_logit = 0, end_logit = 0, offsets = (0, 0), score = 0\<rparr>)
              [\<lparr>start_logit = 5, end_logit = 5, offsets = (0, 5), score = 10\<rparr>])).
              offsets q = (0, 0)
         then truncated 1 (pool True
              (Some \<lparr>start_logit = 0, end_logit = 0, offsets = (0, 0), score = 0\<rparr>)
              [\<lparr>start_logit = 5, end_logit = 5, offsets = (0, 5), score = 10\<rparr>])
         else truncated 1 (pool True
              (Some \<lparr>start_logit = 0, end_logit = 0, offsets = (0, 0), score = 0\<rparr>)
              [\<lparr>start_logit = 5, end_logit = 5, offsets = (0, 5), score = 10\<rparr>]) @ [p])"
    by blast
  from p have "p = \<lparr>start_logit = 0, end_logit = 0, offsets = (0, 0), score = 0\<rparr>" by simp
  with k show ?thesis by (simp add: pool_def truncated_def py_slice_def py_bound_def)
qed

subsection \<open>The answer in null-answer mode\<close>

text \<open>
  When an example is processed in null-answer mode without an exception: there is a
  first candidate in rank order with a non-empty text; \<open>score_diff\<close> is \<open>null_score\<close>
  minus its start logit minus its end logit; the answer is the empty string when
  \<open>score_diff\<close> exceeds the threshold and that candidate's text otherwise. Here
  \<open>null_score\<close> is the variable of that name: the score of the tracked null candidate
  when the example has a feature.
\<close>

lemma null_mode_answer:
  assumes "process_example fs cl sl el True n m t fi ns ex = Inr r"
  shows "\<exists>i null_score_now.
      i < length (ex_nbest r) \<and> text (ex_nbest r ! i) \<noteq> ''''
      \<and> (\<forall>j<i. text (ex_nbest r ! j) = '''')
      \<and> ex_null_score r = Some null_score_now
      \<and> ex_score_diff r
          = Some (null_score_now - start_logit (ex_nbest r ! i) - end_logit (ex_nbest r ! i))
      \<and> ex_answer r
          = (if null_score_now - start_logit (ex_nbest r ! i) - end_logit (ex_nbest r ! i) > t
             then '''' else text (ex_nbest r ! i))
      \<and> (\<forall>p prelim. gather fs sl el n m fi = Inr (Some p, prelim)
            \<longrightarrow> null_score_now = score p)"
proof -
  from process_example_stages [OF assms] obtain mn prelim0 where
    g: "gather fs sl el n m fi = Inr (mn, prelim0)"
    and c: "choose_answer True t (assign_null_score True mn ns) (ex_nbest r)
       = Inr (ex_answer r, ex_score_diff r)"
    and s: "ex_null_score r = assign_null_score True mn ns" by blast
  from c obtain best nsn where b: "first_non_empty (ex_nbest r) = Inr best"
    and n: "assign_null_score True mn ns = Some nsn"
    and d: "ex_score_diff r = Some (nsn - start_logit best - end_logit best)"
    and a: "ex_answer r = (if nsn - start_logit best - end_logit best > t then ''''
                           else text best)"
    by (auto simp: choose_answer_def Let_def split: sum.splits option.splits)
  from first_non_empty_index [OF b] obtain i where i: "i < length (ex_nbest r)"
    "best = ex_nbest r ! i" "text (ex_nbest r ! i) \<noteq> ''''"
    "\<forall>j<i. text (ex_nbest r ! j) = ''''" by blast
  have "\<forall>p prelim. gather fs sl el n m fi = Inr (Some p, prelim) \<longrightarrow> nsn = score p"
    using g n by (auto simp: assign_null_score_def)
  then show ?thesis
    using i d a s n by (intro exI [of _ i] exI [of _ nsn]) simp
qed

lemma null_mode_answer_instance:
  "ex_score_diff (projr (process_example [span_feature] [''hello''] [[5, 1]] [[5, 2]]
                             True 20 30 0 [0] None q_example)) = Some (10 - 1 - 2)
   \<and> ex_answer (projr (process_example [span_feature] [''hello''] [[5, 1]] [[5, 2]]
                          True 20 30 0 [0] None q_example)) = ''''"
proof -
  let ?r = "\<lparr>ex_nbest =
              [\<lparr>start_logit = 5, end_logit = 5, text = '''',
                probability = 1 / (1 + exp (- 7))\<rparr>,
               \<lparr>start_logit = 1, end_logit = 2, text = ''hello'',
                probability = exp (- 7) / (1 + exp (- 7))\<rparr>],
            ex_answer = '''', ex_score_diff = Some 7, ex_null_score = Some 10\<rparr>"
  from null_mode_answer [OF span_run] obtain i nsn where
    i: "i < length (ex_nbest ?r)" "text (ex_nbest ?r ! i) \<noteq> ''''"
    and n: "ex_null_score ?r = Some nsn"
    and d: "ex_score_diff ?r
      = Some (nsn - start_logit (ex_nbest ?r ! i) - end_logit (ex_nbest ?r ! i))"
    and an: "ex_answer ?r
      = (if nsn - start_logit (ex_nbest ?r ! i) - end_logit (ex_nbest ?r ! i) > 0
         then '''' else text (ex_nbest ?r ! i))" by blast
  from i have "i = 1" by (cases i) auto
  with n d an show ?thesis by (simp add: span_run)
qed

subsection \<open>The scan for a non-empty text\<close>

text \<open>
  C5 does not hold of the code. With a token of zero width in the context, the kept
  list in null-answer mode is that span and the null candidate: two candidates, both
  with the empty text. The guard only looks at lists of length 0 or 1, nothing is
  inserted, the scan runs past the end of the list and the call raises
  \<^verbatim>\<open>IndexError\<close>.
\<close>

theorem empty_text_scan_fails:
  "gather [zero_width_feature] [[0, 1]] [[0, 1]] 20 30 [0]
     = Inr (Some \<lparr>start_logit = 0, end_logit = 0, offsets = (0, 0), score = 0\<rparr>,
            [\<lparr>start_logit = 1, end_logit = 1, offsets = (2, 2), score = 2\<rparr>])
   \<and> map text (guard (map (resolve_text ''abc'')
        (kept True 20 (Some \<lparr>start_logit = 0, end_logit = 0, offsets = (0, 0), score = 0\<rparr>)
           [\<lparr>start_logit = 1, end_logit = 1, offsets = (2, 2), score = 2\<rparr>])))
       = ['''', '''']
   \<and> process_example [zero_width_feature] [''abc''] [[0, 1]] [[0, 1]] True 20 30 0 [0] None
         q_example = Inl IndexError
   \<and> postprocess_qa_predictions [q_example] [zero_width_feature] [''abc'']
         [[[0, 1]], [[0, 1]]] True 20 30 0 = Inl IndexError"
  by (simp add: scenario_defs eval_defs)

subsection \<open>The length of the n-best list\<close>

text \<open>
  C7 as stated fails: with \<open>n_best_size = 1\<close> and null-answer mode off, one kept
  candidate with the empty text makes the guard insert the placeholder, and the list
  has two entries.
\<close>

theorem nbest_length_counterexample:
  "\<not> isl (process_example [zero_width_feature] [''abc''] [[0, 1]] [[0, 1]] False 1 30 0 [0]
            None q_example)
   \<and> length (ex_nbest (projr (process_example [zero_width_feature] [''abc''] [[0, 1]]
                                 [[0, 1]] False 1 30 0 [0] None q_example))) = 2
   \<and> \<not> length (ex_nbest (projr (process_example [zero_width_feature] [''abc''] [[0, 1]]
                                   [[0, 1]] False 1 30 0 [0] None q_example))) \<le> nat 1"
  by (simp add: zero_width_run)

text \<open>
  C7, amended. For \<open>n_best_size \<ge> 0\<close>, the n-best list of an example, which is what is
  stored under its id, has length at least 1 and at most \<open>n_best_size\<close>, plus 1 when the
  null candidate is appended again in null-answer mode, plus 1 when the guard inserts
  the placeholder; for \<open>n_best_size \<ge> 1\<close> that is at most \<open>n_best_size + 1\<close>.
\<close>

theorem nbest_length:
  assumes "process_example fs cl sl el v n m t fi ns ex = Inr r"
    and "gather fs sl el n m fi = Inr (mn, prelim)"
    and "py_index cl (relevant ex) = Inr ctx"
    and "0 \<le> n"
  shows "map_of (all_nbest_json (record_result (ex_id ex) r st)) (ex_id ex) = Some (ex_nbest r)
     \<and> 1 \<le> length (ex_nbest r)
     \<and> length (ex_nbest r) \<le> nat n
          + (if null_forced v mn (truncated n (pool v mn prelim)) then 1 else 0)
          + (if degenerate (map (resolve_text ctx) (kept v n mn prelim)) then 1 else 0)
     \<and> (1 \<le> n \<longrightarrow> length (ex_nbest r) \<le> nat n + 1)"
proof -
  from process_example_stages [OF assms(1)] assms(2,3)
  have a: "attach_probabilities (guard (map (resolve_text ctx) (kept v n mn prelim)))
       = Inr (ex_nbest r)" by (metis Inr_inject prod.inject)
  let ?texts = "map (resolve_text ctx) (kept v n mn prelim)"
  have l: "length (ex_nbest r) = length (guard ?texts)"
    using attach_probabilities_shape(1) [OF a] .
  have "guard ?texts \<noteq> []" by (rule guard_not_Nil)
  then have lower: "1 \<le> length (ex_nbest r)" using l by (cases "guard ?texts") auto
  have "length (guard ?texts) = length (kept v n mn prelim)
      + (if degenerate ?texts then 1 else 0)"
    by (simp add: length_guard)
  moreover have "length (truncated n (pool v mn prelim)) \<le> nat n"
    using assms(4) by (rule length_truncated)
  ultimately have "length (ex_nbest r) \<le> nat n
          + (if null_forced v mn (truncated n (pool v mn prelim)) then 1 else 0)
          + (if degenerate ?texts then 1 else 0)"
    using l length_kept [of v n mn prelim] by simp
  note upper = this
  have "length (ex_nbest r) \<le> nat n + 1" if "1 \<le> n"
    using upper forced_not_degenerate [OF that, of v mn prelim ctx]
    by (auto split: if_splits)
  with lower upper record_result_nbest [of "ex_id ex" r st] show ?thesis by simp
qed

theorem nbest_length_witness:
  "1 \<le> length (ex_nbest (projr (process_example [span_feature] [''hello''] [[0, 5]]
                                    [[0, 5]] True 1 30 0 [0] None q_example)))
   \<and> length (ex_nbest (projr (process_example [span_feature] [''hello''] [[0, 5]]
                                  [[0, 5]] True 1 30 0 [0] None q_example))) \<le> 2"
proof -
  have n: "(0::int) \<le> 1" by simp
  from nbest_length [OF forced_run forced_gather q_context n, of "initial_state True"]
  show ?thesis by (simp add: forced_run)
qed

subsection \<open>The guard against a degenerate result\<close>




section \<open>The loop over the examples\<close>

subsection \<open>One pass and the grouping of the features\<close>

lemma placeholder_alone:
  assumes "process_example fs cl sl el False n m t fi ns ex = Inr r"
    and "gather fs sl el n m fi = Inr (mn, [])"
  shows "ex_answer r = ''empty''"
proof -
  from process_example_stages [OF assms(1)] assms(2) obtain ctx where
    a: "attach_probabilities (guard (map (resolve_text ctx) (kept False n mn []))) = Inr (ex_nbest r)"
    and c: "choose_answer False t (assign_null_score False mn ns) (ex_nbest r)
       = Inr (ex_answer r, ex_score_diff r)"
    by (metis Inr_inject prod.inject)
  have "guard (map (resolve_text ctx) (kept False n mn [])) = [placeholder]"
    by (simp add: kept_Nil guard_def degenerate_def)
  with a attach_placeholder
  have "ex_nbest r = [\<lparr>start_logit = 0, end_logit = 0, text = ''empty'', probability = 1\<rparr>]"
    by simp
  with c show ?thesis by (simp add: choose_answer_def index_def)
qed

lemma choose_answer_score_diff:
  "choose_answer True t ns ps = Inr (a, d) \<Longrightarrow> d \<noteq> None"
  by (auto simp: choose_answer_def Let_def split: sum.splits option.splits)

lemma null_mode_score_diff:
  "process_example fs cl sl el True n m t fi ns ex = Inr r \<Longrightarrow> \<exists>d. ex_score_diff r = Some d"
proof -
  assume "process_example fs cl sl el True n m t fi ns ex = Inr r"
  from process_example_stages [OF this] obtain mn where
    "choose_answer True t (assign_null_score True mn ns) (ex_nbest r)
       = Inr (ex_answer r, ex_score_diff r)" by blast
  then have "ex_score_diff r \<noteq> None" by (rule choose_answer_score_diff)
  then show ?thesis by auto
qed

lemma example_step_result:
  assumes "example_step fs cl sl el v n m t fpe entry st = Inr st'"
  obtains r where
    "process_example fs cl sl el v n m t (fpe (fst entry)) (null_score st) (snd entry) = Inr r"
    "st' = record_result (ex_id (snd entry)) r st"
  using assms by (auto simp: example_step_def split: sum.splits)

lemma group_features:
  "for_each (group_step ix) entries acc = Inr fpe \<Longrightarrow>
     fpe j = acc j @ map fst (filter (\<lambda>e. ix (example_id (snd e)) = Some j) entries)"
proof (induction entries arbitrary: acc)
  case Nil
  then show ?case by simp
next
  case (Cons e entries)
  from Cons.prems obtain acc' where s: "group_step ix e acc = Inr acc'"
    and rest: "for_each (group_step ix) entries acc' = Inr fpe"
    by (cases "group_step ix e acc") auto
  from s obtain k where k: "ix (example_id (snd e)) = Some k"
    and acc': "acc' = acc(k := acc k @ [fst e])"
    by (auto simp: group_step_def split: option.splits)
  from Cons.IH [OF rest] show ?case by (simp add: acc' k)
qed

lemma example_id_to_index_Some:
  assumes "example_id_to_index exs k = Some j"
  shows "j < length exs \<and> ex_id (exs ! j) = k"
proof -
  from assms have "(k, j) \<in> set (zip (map ex_id exs) [0..<length exs])"
    by (auto simp: example_id_to_index_def dest: map_of_SomeD)
  then show ?thesis by (auto simp: set_zip)
qed

lemma no_feature_no_indices:
  assumes "for_each (group_step (example_id_to_index exs)) (zip [0..<length fs] fs) (\<lambda>_. [])
      = Inr fpe"
    and "\<forall>f\<in>set fs. example_id f \<noteq> ex_id (exs ! j)"
  shows "fpe j = []"
proof -
  have "filter (\<lambda>e. example_id_to_index exs (example_id (snd e)) = Some j)
      (zip [0..<length fs] fs) = []"
  proof (rule filter_False, rule ballI)
    fix e assume e: "e \<in> set (zip [0..<length fs] fs)"
    then have "snd e \<in> set fs" by (metis set_zip_rightD prod.collapse)
    with assms(2) have "example_id (snd e) \<noteq> ex_id (exs ! j)" by simp
    then show "\<not> example_id_to_index exs (example_id (snd e)) = Some j"
      by (auto dest: example_id_to_index_Some)
  qed
  with group_features [OF assms(1), of j] show ?thesis by simp
qed

subsection \<open>The dictionaries after the loop\<close>

lemma update_fresh: "k \<notin> fst ` set al \<Longrightarrow> AList.update k v al = al @ [(k, v)]"
  by (induction al) auto

lemma record_result_fields:
  "all_predictions (record_result k r st) = AList.update k (ex_answer r) (all_predictions st)"
  "all_nbest_json (record_result k r st) = AList.update k (ex_nbest r) (all_nbest_json st)"
  "null_score (record_result k r st) = ex_null_score r"
  by (simp_all add: record_result_def)

lemma record_result_scores:
  "scores_diff_json st = None \<Longrightarrow> scores_diff_json (record_result k r st) = None"
  "scores_diff_json st = Some d \<Longrightarrow> ex_score_diff r = Some x \<Longrightarrow>
     scores_diff_json (record_result k r st) = Some (AList.update k x d)"
  by (simp_all add: record_result_def)

lemma loop_keys:
  assumes "for_each (example_step fs cl sl el v n m t fpe) entries st = Inr st'"
  shows "fst ` set (all_predictions st')
           = fst ` set (all_predictions st) \<union> (\<lambda>e. ex_id (snd e)) ` set entries"
    and "fst ` set (all_nbest_json st')
           = fst ` set (all_nbest_json st) \<union> (\<lambda>e. ex_id (snd e)) ` set entries"
  using assms
proof (induction entries arbitrary: st)
  case Nil
  { case 1 then show ?case by simp }
  { case 2 then show ?case by simp }
next
  case (Cons e entries)
  {
    case 1
    from 1 obtain st1 where s: "example_step fs cl sl el v n m t fpe e st = Inr st1"
      and rest: "for_each (example_step fs cl sl el v n m t fpe) entries st1 = Inr st'"
      by (cases "example_step fs cl sl el v n m t fpe e st") auto
    from s obtain r where st1: "st1 = record_result (ex_id (snd e)) r st"
      by (rule example_step_result)
    from Cons.IH(1) [OF rest] show ?case
      by (auto simp: st1 record_result_fields dom_update)
  }
  {
    case 2
    from 2 obtain st1 where s: "example_step fs cl sl el v n m t fpe e st = Inr st1"
      and rest: "for_each (example_step fs cl sl el v n m t fpe) entries st1 = Inr st'"
      by (cases "example_step fs cl sl el v n m t fpe e st") auto
    from s obtain r where st1: "st1 = record_result (ex_id (snd e)) r st"
      by (rule example_step_result)
    from Cons.IH(2) [OF rest] show ?case
      by (auto simp: st1 record_result_fields dom_update)
  }
qed

lemma loop_no_scores:
  assumes "for_each (example_step fs cl sl el v n m t fpe) entries st = Inr st'"
    and "scores_diff_json st = None"
  shows "scores_diff_json st' = None"
proof (rule for_each_invariant [OF assms(1), where P = "\<lambda>u. scores_diff_json u = None"])
  show "scores_diff_json st = None" by (rule assms(2))
next
  fix x u u'
  assume "scores_diff_json u = None" "example_step fs cl sl el v n m t fpe x u = Inr u'"
  then show "scores_diff_json u' = None"
    by (auto elim!: example_step_result simp: record_result_scores)
qed

lemma loop_scores:
  assumes "for_each (example_step fs cl sl el True n m t fpe) entries st = Inr st'"
    and "scores_diff_json st = Some d"
  shows "\<exists>d'. scores_diff_json st' = Some d'
     \<and> fst ` set d' = fst ` set d \<union> (\<lambda>e. ex_id (snd e)) ` set entries"
  using assms
proof (induction entries arbitrary: st d)
  case Nil
  then show ?case by simp
next
  case (Cons e entries)
  from Cons.prems(1) obtain st1 where
    s: "example_step fs cl sl el True n m t fpe e st = Inr st1"
    and rest: "for_each (example_step fs cl sl el True n m t fpe) entries st1 = Inr st'"
    by (cases "example_step fs cl sl el True n m t fpe e st") auto
  from s obtain r where
    r: "process_example fs cl sl el True n m t (fpe (fst e)) (null_score st) (snd e) = Inr r"
    and st1: "st1 = record_result (ex_id (snd e)) r st"
    by (rule example_step_result)
  from null_mode_score_diff [OF r] obtain x where x: "ex_score_diff r = Some x" by blast
  have d1: "scores_diff_json st1 = Some (AList.update (ex_id (snd e)) x d)"
    unfolding st1 using Cons.prems(2) x by (rule record_result_scores)
  from Cons.IH [OF rest d1] show ?case by (auto simp: dom_update)
qed

lemma loop_order:
  assumes "for_each (example_step fs cl sl el v n m t fpe) entries st = Inr st'"
    and "distinct (map (\<lambda>e. ex_id (snd e)) entries)"
    and "\<forall>e\<in>set entries. ex_id (snd e) \<notin> fst ` set (all_predictions st)"
  shows "map fst (all_predictions st')
           = map fst (all_predictions st) @ map (\<lambda>e. ex_id (snd e)) entries
     \<and> (\<forall>k. k \<notin> (\<lambda>e. ex_id (snd e)) ` set entries
            \<longrightarrow> map_of (all_predictions st') k = map_of (all_predictions st) k)
     \<and> (\<forall>e\<in>set entries. \<not> v \<and> fpe (fst e) = []
            \<longrightarrow> map_of (all_predictions st') (ex_id (snd e)) = Some ''empty'')"
  using assms
proof (induction entries arbitrary: st)
  case Nil
  then show ?case by simp
next
  case (Cons e entries)
  let ?k = "ex_id (snd e)"
  from Cons.prems(1) obtain st1 where
    s: "example_step fs cl sl el v n m t fpe e st = Inr st1"
    and rest: "for_each (example_step fs cl sl el v n m t fpe) entries st1 = Inr st'"
    by (cases "example_step fs cl sl el v n m t fpe e st") auto
  from s obtain r where
    r: "process_example fs cl sl el v n m t (fpe (fst e)) (null_score st) (snd e) = Inr r"
    and st1: "st1 = record_result ?k r st"
    by (rule example_step_result)
  have new: "?k \<notin> fst ` set (all_predictions st)" using Cons.prems(3) by simp
  have ap1: "all_predictions st1 = all_predictions st @ [(?k, ex_answer r)]"
    using new by (simp add: st1 record_result_fields update_fresh)
  have fresh: "?k \<notin> (\<lambda>e. ex_id (snd e)) ` set entries" using Cons.prems(2) by auto
  have d: "distinct (map (\<lambda>e. ex_id (snd e)) entries)" using Cons.prems(2) by simp
  have n1: "\<forall>e'\<in>set entries. ex_id (snd e') \<notin> fst ` set (all_predictions st1)"
  proof
    fix e' assume e': "e' \<in> set entries"
    then have "ex_id (snd e') \<noteq> ?k" using Cons.prems(2) by (auto simp: image_iff)
    moreover have "ex_id (snd e') \<notin> fst ` set (all_predictions st)"
      using Cons.prems(3) e' by simp
    ultimately show "ex_id (snd e') \<notin> fst ` set (all_predictions st1)"
      by (simp add: ap1)
  qed
  from Cons.IH [OF rest d n1]
  have o: "map fst (all_predictions st')
           = map fst (all_predictions st1) @ map (\<lambda>e. ex_id (snd e)) entries"
    and same: "\<And>k. k \<notin> (\<lambda>e. ex_id (snd e)) ` set entries
            \<Longrightarrow> map_of (all_predictions st') k = map_of (all_predictions st1) k"
    and em: "\<forall>e\<in>set entries. \<not> v \<and> fpe (fst e) = []
            \<longrightarrow> map_of (all_predictions st') (ex_id (snd e)) = Some ''empty''"
    by blast+
  have k1: "map_of (all_predictions st1) ?k = Some (ex_answer r)"
    by (simp add: st1 record_result_fields update_conv')
  have c1: "map fst (all_predictions st')
      = map fst (all_predictions st) @ map (\<lambda>e. ex_id (snd e)) (e # entries)"
    using o by (simp add: ap1)
  have c2: "\<forall>k. k \<notin> (\<lambda>e. ex_id (snd e)) ` set (e # entries)
      \<longrightarrow> map_of (all_predictions st') k = map_of (all_predictions st) k"
  proof (intro allI impI)
    fix k assume k: "k \<notin> (\<lambda>e. ex_id (snd e)) ` set (e # entries)"
    then have "map_of (all_predictions st') k = map_of (all_predictions st1) k"
      by (intro same) auto
    also have "\<dots> = map_of (all_predictions st) k"
      using k by (simp add: st1 record_result_fields update_conv')
    finally show "map_of (all_predictions st') k = map_of (all_predictions st) k" .
  qed
  have c3: "\<forall>e'\<in>set (e # entries). \<not> v \<and> fpe (fst e') = []
      \<longrightarrow> map_of (all_predictions st') (ex_id (snd e')) = Some ''empty''"
  proof (intro ballI impI)
    fix e' assume e': "e' \<in> set (e # entries)" and h: "\<not> v \<and> fpe (fst e') = []"
    show "map_of (all_predictions st') (ex_id (snd e')) = Some ''empty''"
    proof (cases "e' = e")
      case True
      from h True r have "process_example fs cl sl el False n m t [] (null_score st) (snd e)
          = Inr r" by simp
      from placeholder_alone [OF this gather_Nil] have "ex_answer r = ''empty''" .
      with k1 same [OF fresh] True show ?thesis by simp
    next
      case False
      with e' have "e' \<in> set entries" by simp
      with em h show ?thesis by blast
    qed
  qed
  from c1 c2 c3 show ?case by blast
qed

lemma run_stages:
  assumes "run exs fs cl preds v n m t = Inr st"
  obtains sl el fpe where
    "preds = [sl, el]" "length sl = length fs"
    "for_each (group_step (example_id_to_index exs)) (zip [0..<length fs] fs) (\<lambda>_. [])
       = Inr fpe"
    "for_each (example_step fs cl sl el v n m t fpe) (zip [0..<length exs] exs)
       (initial_state v) = Inr st"
proof -
  from assms have two: "length preds = 2"
    by (auto simp: run_def split: if_splits)
  then obtain sl el where p: "preds = [sl, el]"
    by (cases preds; cases "tl preds") auto
  from assms p have l: "length sl = length fs"
    by (auto simp: run_def Let_def split: if_splits)
  from assms p l obtain fpe where
    "for_each (group_step (example_id_to_index exs)) (zip [0..<length fs] fs) (\<lambda>_. [])
       = Inr fpe"
    "for_each (example_step fs cl sl el v n m t fpe) (zip [0..<length exs] exs)
       (initial_state v) = Inr st"
    by (auto simp: run_def Let_def split: sum.splits)
  with p l that show ?thesis by blast
qed

lemma entry_ids: "map (\<lambda>e. ex_id (snd e)) (zip [0..<length exs] exs) = map ex_id exs"
proof -
  have "map snd (zip [0..<length exs] exs) = exs" by simp
  then have "map ex_id (map snd (zip [0..<length exs] exs)) = map ex_id exs"
    by (simp only:)
  then show ?thesis by (simp only: map_map comp_def)
qed

lemma entry_id_set: "(\<lambda>e. ex_id (snd e)) ` set (zip [0..<length exs] exs) = ex_id ` set exs"
proof -
  have "set (map (\<lambda>e. ex_id (snd e)) (zip [0..<length exs] exs)) = set (map ex_id exs)"
    by (simp only: entry_ids)
  then show ?thesis by (simp only: set_map)
qed

lemma initial_state_fields:
  "all_predictions (initial_state v) = []"
  "all_nbest_json (initial_state v) = []"
  "scores_diff_json (initial_state True) = Some []"
  "scores_diff_json (initial_state False) = None"
  by (simp_all add: initial_state_def)

lemma null_run:
  "run [q_example] [span_feature] [''hello''] [[[5, 1]], [[5, 2]]] True 20 30 0
     = Inr \<lparr>all_predictions = [(''q'', '''')],
            all_nbest_json =
              [(''q'',
                [\<lparr>start_logit = 5, end_logit = 5, text = '''',
                  probability = 1 / (1 + exp (- 7))\<rparr>,
                 \<lparr>start_logit = 1, end_logit = 2, text = ''hello'',
                  probability = exp (- 7) / (1 + exp (- 7))\<rparr>])],
            scores_diff_json = Some [(''q'', 7)], null_score = Some 10\<rparr>"
  by (simp add: scenario_defs eval_defs)

lemma null_run_other:
  "run [q_example] [span_feature] [''hello''] [[[5, 1]], [[5, 1]]] True 20 30 0
     = Inr \<lparr>all_predictions = [(''q'', '''')],
            all_nbest_json =
              [(''q'',
                [\<lparr>start_logit = 5, end_logit = 5, text = '''',
                  probability = 1 / (1 + exp (- 8))\<rparr>,
                 \<lparr>start_logit = 1, end_logit = 1, text = ''hello'',
                  probability = exp (- 8) / (1 + exp (- 8))\<rparr>])],
            scores_diff_json = Some [(''q'', 8)], null_score = Some 10\<rparr>"
  by (simp add: scenario_defs eval_defs)

lemma plain_run:
  "run [q_example] [span_feature] [''hello''] [[[5, 1]], [[5, 2]]] False 20 30 0
     = Inr \<lparr>all_predictions = [(''q'', ''hello'')],
            all_nbest_json =
              [(''q'',
                [\<lparr>start_logit = 1, end_logit = 2, text = ''hello'', probability = 1\<rparr>])],
            scores_diff_json = None, null_score = None\<rparr>"
  by (simp add: scenario_defs eval_defs)

lemma two_examples_run:
  "postprocess_qa_predictions [b_example, a_example] [a_feature] [''abc'']
     [[[1, 3]], [[1, 3]]] False 20 30 0 = Inr [(''b'', ''empty''), (''a'', ''abc'')]"
  by (simp add: scenario_defs eval_defs)

subsection \<open>The order of the answers\<close>

text \<open>
  C10 does not hold of the code in null-answer mode. \<open>null_score\<close> is assigned only
  when the example has a feature and is read for every example. For an example
  without features the answer is decided with the \<open>null_score\<close> left by the example
  before it, here 2 above the threshold 0, and is the empty string, not the
  placeholder; when such an example comes first, \<open>null_score\<close> is unbound, the call
  raises and returns no mapping.
\<close>

theorem zero_feature_example_null_mode:
  "postprocess_qa_predictions [a_example, b_example] [a_feature] [''abc'']
     [[[1, 3]], [[1, 3]]] True 20 30 0 = Inr [(''a'', ''abc''), (''b'', '''')]
   \<and> postprocess_qa_predictions [b_example, a_example] [a_feature] [''abc'']
       [[[1, 3]], [[1, 3]]] True 20 30 0 = Inl UnboundLocalError"
  by (simp add: scenario_defs eval_defs)

text \<open>
  What the code does ensure: when the ids of the examples are pairwise distinct and
  the call returns, the returned mapping has exactly one entry per example, keyed by
  its id, in the order of the examples; with null-answer mode off an example without
  features gets the placeholder answer \<open>empty\<close>.
\<close>

lemma answers_in_order:
  assumes "postprocess_qa_predictions exs fs cl preds v n m t = Inr out"
    and "distinct (map ex_id exs)"
  shows "map fst out = map ex_id exs
     \<and> (\<not> v \<longrightarrow> (\<forall>i<length exs. (\<forall>f\<in>set fs. example_id f \<noteq> ex_id (exs ! i))
                  \<longrightarrow> out ! i = (ex_id (exs ! i), ''empty'')))"
proof -
  from assms(1) obtain st where st: "run exs fs cl preds v n m t = Inr st"
    and out: "out = all_predictions st"
    by (auto simp: postprocess_qa_predictions_def split: sum.splits)
  show ?thesis
  proof (rule run_stages [OF st])
  fix sl el fpe
  assume g: "for_each (group_step (example_id_to_index exs)) (zip [0..<length fs] fs) (\<lambda>_. [])
       = Inr fpe"
    and l: "for_each (example_step fs cl sl el v n m t fpe) (zip [0..<length exs] exs)
       (initial_state v) = Inr st"
  let ?entries = "zip [0..<length exs] exs"
  have d: "distinct (map (\<lambda>e. ex_id (snd e)) ?entries)"
    using assms(2) by (simp only: entry_ids)
  have e0: "\<forall>e\<in>set ?entries. ex_id (snd e) \<notin> fst ` set (all_predictions (initial_state v))"
    by (simp only: initial_state_fields) simp
  from loop_order [OF l d e0]
  have k0: "map fst (all_predictions st)
           = map fst (all_predictions (initial_state v)) @ map (\<lambda>e. ex_id (snd e)) ?entries"
    and em: "\<forall>e\<in>set ?entries. \<not> v \<and> fpe (fst e) = []
            \<longrightarrow> map_of (all_predictions st) (ex_id (snd e)) = Some ''empty''"
    by blast+
  from k0 have keys: "map fst out = map ex_id exs"
    by (simp only: out entry_ids initial_state_fields list.map append_Nil)
  have "out ! i = (ex_id (exs ! i), ''empty'')"
    if nv: "\<not> v" and i: "i < length exs" and nf: "\<forall>f\<in>set fs. example_id f \<noteq> ex_id (exs ! i)"
    for i
  proof -
    have mem: "(i, exs ! i) \<in> set ?entries"
      unfolding set_zip using i by (intro CollectI exI [of _ i]) simp
    have "fpe i = []" using no_feature_no_indices [OF g nf] .
    with em [rule_format, OF mem] nv
    have m: "map_of out (ex_id (exs ! i)) = Some ''empty''" by (simp add: out)
    have "length (map fst out) = length (map ex_id exs)" by (simp only: keys)
    then have len: "length out = length exs" by simp
    have dk: "distinct (map fst out)" using assms(2) by (simp only: keys)
    have "map fst out ! i = map ex_id exs ! i" by (simp only: keys)
    then have fi: "fst (out ! i) = ex_id (exs ! i)" using i len by simp
    have "(fst (out ! i), snd (out ! i)) \<in> set out" using i len by simp
    with dk have "map_of out (fst (out ! i)) = Some (snd (out ! i))" by simp
    with m fi have "snd (out ! i) = ''empty''" by simp
    with fi show ?thesis by (simp add: prod_eq_iff)
  qed
  with keys show ?thesis by blast
  qed
qed

lemma answers_in_order_instance:
  "map fst (projr (postprocess_qa_predictions [b_example, a_example] [a_feature] [''abc'']
      [[[1, 3]], [[1, 3]]] False 20 30 0)) = [''b'', ''a'']
   \<and> projr (postprocess_qa_predictions [b_example, a_example] [a_feature] [''abc'']
      [[[1, 3]], [[1, 3]]] False 20 30 0) ! 0 = (''b'', ''empty'')"
proof -
  have d: "distinct (map ex_id [b_example, a_example])"
    by (simp add: a_example_def b_example_def)
  have nf: "\<forall>f\<in>set [a_feature]. example_id f \<noteq> ex_id ([b_example, a_example] ! 0)"
    by (simp add: a_example_def b_example_def a_feature_def)
  from answers_in_order [OF two_examples_run d] nf
  have "map fst [(''b'', ''empty''), (''a'', ''abc'')] = map ex_id [b_example, a_example]"
    and "[(''b'', ''empty''), (''a'', ''abc'')] ! 0 = (ex_id ([b_example, a_example] ! 0), ''empty'')"
    by simp_all
  then have "map fst [(''b'', ''empty''), (''a'', ''abc'')] = [''b'', ''a'']"
    and "[(''b'', ''empty''), (''a'', ''abc'')] ! 0 = (''b'', ''empty'')"
    by (simp_all add: a_example_def b_example_def)
  then show ?thesis by (simp only: two_examples_run sum.sel)
qed

subsection \<open>What the call returns\<close>

text \<open>
  C1 as stated fails: the value returned is the answer mapping alone. Two calls in
  null-answer mode whose score differences are 7 and 8 return the same value.
\<close>

theorem returned_dictionaries_counterexample:
  "postprocess_qa_predictions [q_example] [span_feature] [''hello''] [[[5, 1]], [[5, 2]]]
     True 20 30 0 = Inr [(''q'', '''')]
   \<and> postprocess_qa_predictions [q_example] [span_feature] [''hello''] [[[5, 1]], [[5, 1]]]
       True 20 30 0 = Inr [(''q'', '''')]
   \<and> scores_diff_json (projr (run [q_example] [span_feature] [''hello'']
         [[[5, 1]], [[5, 2]]] True 20 30 0)) = Some [(''q'', 7)]
   \<and> scores_diff_json (projr (run [q_example] [span_feature] [''hello'']
         [[[5, 1]], [[5, 1]]] True 20 30 0)) = Some [(''q'', 8)]"
  by (simp add: postprocess_qa_predictions_def null_run null_run_other)

text \<open>
  C1, amended. A call that completes returns one result, the mapping from example id
  to answer text. The n-best mapping and, in null-answer mode, the mapping of the score
  differences are filled with an entry for every example id but are not returned; with
  null-answer mode off no mapping of score differences exists.
\<close>

theorem returned_dictionaries:
  assumes "run exs fs cl preds v n m t = Inr st"
  shows "postprocess_qa_predictions exs fs cl preds v n m t = Inr (all_predictions st)
     \<and> fst ` set (all_predictions st) = ex_id ` set exs
     \<and> fst ` set (all_nbest_json st) = ex_id ` set exs
     \<and> (v \<longrightarrow> (\<exists>d. scores_diff_json st = Some d \<and> fst ` set d = ex_id ` set exs))
     \<and> (\<not> v \<longrightarrow> scores_diff_json st = None)"
proof -
  show ?thesis
  proof (rule run_stages [OF assms])
  fix sl el fpe
  assume l: "for_each (example_step fs cl sl el v n m t fpe) (zip [0..<length exs] exs)
       (initial_state v) = Inr st"
  have r: "postprocess_qa_predictions exs fs cl preds v n m t = Inr (all_predictions st)"
    by (simp add: postprocess_qa_predictions_def assms)
  from loop_keys [OF l]
  have k1: "fst ` set (all_predictions st) = ex_id ` set exs"
    and k2: "fst ` set (all_nbest_json st) = ex_id ` set exs"
    by (simp_all only: initial_state_fields entry_id_set list.set image_empty Un_empty_left)
  have s1: "\<exists>d. scores_diff_json st = Some d \<and> fst ` set d = ex_id ` set exs" if v
  proof -
    from l that have l': "for_each (example_step fs cl sl el True n m t fpe)
        (zip [0..<length exs] exs) (initial_state True) = Inr st" by simp
    from loop_scores [OF l' initial_state_fields(3)] show ?thesis
      by (simp only: entry_id_set list.set image_empty Un_empty_left)
  qed
  have s2: "scores_diff_json st = None" if "\<not> v"
    using loop_no_scores [OF l] that by (simp add: initial_state_def)
  from r k1 k2 s1 s2 show ?thesis by blast
  qed
qed

theorem returned_dictionaries_witness:
  "postprocess_qa_predictions [q_example] [span_feature] [''hello''] [[[5, 1]], [[5, 2]]]
     True 20 30 0 = Inr [(''q'', '''')]
   \<and> fst ` set (all_nbest_json (projr (run [q_example] [span_feature] [''hello'']
         [[[5, 1]], [[5, 2]]] True 20 30 0))) = {''q''}
   \<and> fst ` set (the (scores_diff_json (projr (run [q_example] [span_feature] [''hello'']
         [[[5, 1]], [[5, 2]]] True 20 30 0)))) = {''q''}
   \<and> scores_diff_json (projr (run [q_example] [span_feature] [''hello'']
         [[[5, 1]], [[5, 2]]] False 20 30 0)) = None"
proof -
  from returned_dictionaries [OF null_run]
  have a: "postprocess_qa_predictions [q_example] [span_feature] [''hello'']
      [[[5, 1]], [[5, 2]]] True 20 30 0 = Inr [(''q'', '''')]"
    and b: "fst ` set (all_nbest_json (projr (run [q_example] [span_feature] [''hello'']
         [[[5, 1]], [[5, 2]]] True 20 30 0))) = ex_id ` set [q_example]"
    and c: "fst ` set (the (scores_diff_json (projr (run [q_example] [span_feature]
         [''hello''] [[[5, 1]], [[5, 2]]] True 20 30 0)))) = ex_id ` set [q_example]"
    by (simp_all add: null_run)
  from returned_dictionaries [OF plain_run]
  have d: "scores_diff_json (projr (run [q_example] [span_feature] [''hello'']
         [[[5, 1]], [[5, 2]]] False 20 30 0)) = None"
    by (simp add: plain_run)
  from a b c d show ?thesis by (simp add: q_example_def)
qed

subsection \<open>The recorded score difference and answer in null-answer mode\<close>

text \<open>
  C3 does not hold of the code for every example. In the scenario of the claim
  (\<open>null_score = 10\<close>, a best non-null candidate with logits 1 and 2, threshold 0) the
  recorded \<open>score_diff\<close> is 7 and the recorded answer is the empty string. But when
  all kept candidates have the empty text (a token of zero width in the context), the
  scan for the best non-null candidate runs past the end of the list: the call raises
  \<^verbatim>\<open>IndexError\<close> and records neither a \<open>score_diff\<close> nor an answer. When the
  first example has no feature, \<open>null_score\<close> is unbound where \<open>score_diff\<close> is
  computed, and the call raises as well.
\<close>

theorem null_mode_answer_not_recorded:
  "scores_diff_json (projr (run [q_example] [span_feature] [''hello'']
       [[[5, 1]], [[5, 2]]] True 20 30 0)) = Some [(''q'', 7)]
   \<and> all_predictions (projr (run [q_example] [span_feature] [''hello'']
       [[[5, 1]], [[5, 2]]] True 20 30 0)) = [(''q'', '''')]
   \<and> run [q_example] [zero_width_feature] [''abc''] [[[0, 1]], [[0, 1]]] True 20 30 0
       = Inl IndexError
   \<and> run [b_example, a_example] [a_feature] [''abc''] [[[1, 3]], [[1, 3]]] True 20 30 0
       = Inl UnboundLocalError"
  by (simp add: scenario_defs eval_defs)

end
